theory Spec2Isabelle
  imports Complex_Main "HOL-Library.Char_ord" "HOL-Library.List_Lexorder"
begin

section \<open>The search server of cpp-search-server, embedded\<close>

text \<open>
  The definitions follow the final snapshot of the server (the file with \<^verbatim>\<open>IsInvalid\<close>
  and the unit tests). Every member function of \<^verbatim>\<open>SearchServer\<close> becomes a function of the
  server state; a member that mutates returns the state it leaves behind, also when it throws.
  The data members keep their names, without the trailing underscore.
\<close>

subsection \<open>Exceptions\<close>

text \<open>
  The code throws \<^verbatim>\<open>std::invalid_argument\<close> with a message of its own, and the
  containers' \<^verbatim>\<open>at\<close> throws \<^verbatim>\<open>std::out_of_range\<close>.
\<close>

datatype error = invalid_argument string | out_of_range

abbreviation InvalidDocument :: error where
  "InvalidDocument \<equiv> invalid_argument ''Bad document to add''"

abbreviation InvalidStopWord :: error where
  "InvalidStopWord \<equiv> invalid_argument ''Invalid stop word''"

abbreviation InvalidQueryText :: error where
  "InvalidQueryText \<equiv> invalid_argument ''Invalid query''"

abbreviation InvalidMinusWord :: error where
  "InvalidMinusWord \<equiv> invalid_argument ''Invalid minus word''"

subsection \<open>The type double\<close>

text \<open>
  A \<^verbatim>\<open>double\<close> is a finite value or one of the three special values of IEEE 754. Finite
  values are exact reals: rounding and the sign of zero are not part of the model. What the
  model keeps is which operations leave the finite values: a division by zero, the logarithm
  of zero or of a negative number, and arithmetic on the special values.
\<close>

datatype double = Fin real | PInf | NInf | NaN

fun dneg :: "double \<Rightarrow> double" where
  "dneg (Fin a) = Fin (- a)"
| "dneg PInf = NInf"
| "dneg NInf = PInf"
| "dneg NaN = NaN"

fun dadd :: "double \<Rightarrow> double \<Rightarrow> double" where
  "dadd (Fin a) (Fin b) = Fin (a + b)"
| "dadd NaN y = NaN"
| "dadd x NaN = NaN"
| "dadd PInf NInf = NaN"
| "dadd NInf PInf = NaN"
| "dadd PInf y = PInf"
| "dadd x PInf = PInf"
| "dadd NInf y = NInf"
| "dadd x NInf = NInf"

definition dsub :: "double \<Rightarrow> double \<Rightarrow> double" where
  "dsub x y = dadd x (dneg y)"

fun dabs :: "double \<Rightarrow> double" where
  "dabs (Fin a) = Fin \<bar>a\<bar>"
| "dabs PInf = PInf"
| "dabs NInf = PInf"
| "dabs NaN = NaN"

text \<open>The sign of a double: 1, -1, or 0 for a zero; NaN has none.\<close>

fun dsign :: "double \<Rightarrow> int option" where
  "dsign (Fin a) = Some (if 0 < a then 1 else if a < 0 then - 1 else 0)"
| "dsign PInf = Some 1"
| "dsign NInf = Some (- 1)"
| "dsign NaN = None"

definition signed_inf :: "int \<Rightarrow> double" where
  "signed_inf k = (if 0 < k then PInf else if k < 0 then NInf else NaN)"

fun dmul :: "double \<Rightarrow> double \<Rightarrow> double" where
  "dmul (Fin a) (Fin b) = Fin (a * b)"
| "dmul x y =
     (case (dsign x, dsign y) of
        (Some k, Some l) \<Rightarrow> signed_inf (k * l)
      | _ \<Rightarrow> NaN)"

fun ddiv :: "double \<Rightarrow> double \<Rightarrow> double" where
  "ddiv (Fin a) (Fin b) =
     (if b = 0 then signed_inf (if 0 < a then 1 else if a < 0 then - 1 else 0)
      else Fin (a / b))"
| "ddiv NaN y = NaN"
| "ddiv x NaN = NaN"
| "ddiv (Fin a) y = Fin 0"
| "ddiv x (Fin b) =
     (case dsign x of
        Some k \<Rightarrow> signed_inf (if b < 0 then - k else k)
      | None \<Rightarrow> NaN)"
| "ddiv x y = NaN"

fun dlog :: "double \<Rightarrow> double" where
  "dlog (Fin a) = (if 0 < a then Fin (ln a) else if a = 0 then NInf else NaN)"
| "dlog PInf = PInf"
| "dlog NInf = NaN"
| "dlog NaN = NaN"

fun dless :: "double \<Rightarrow> double \<Rightarrow> bool" where
  "dless (Fin a) (Fin b) = (a < b)"
| "dless NaN y = False"
| "dless x NaN = False"
| "dless x NInf = False"
| "dless PInf y = False"
| "dless x y = True"

text \<open>The conversion of a \<^verbatim>\<open>size_t\<close> to \<^verbatim>\<open>double\<close>.\<close>

definition of_size :: "nat \<Rightarrow> double" where
  "of_size n = Fin (real n)"

definition EPSILON :: double where
  "EPSILON = Fin (1 / 1000000)"

definition MAX_RESULT_DOCUMENT_COUNT :: nat where
  "MAX_RESULT_DOCUMENT_COUNT = 5"

subsection \<open>The type int\<close>

text \<open>
  Document ids and ratings are C++ \<^verbatim>\<open>int\<close>s, 32 bits wide. Ids are only compared. Ratings
  are added up by \<^verbatim>\<open>std::accumulate\<close> in \<^verbatim>\<open>int\<close>: the model writes out the
  wrap-around of two's complement arithmetic (the language leaves signed overflow undefined;
  the theorems on ratings say when no overflow happens). The quotient of two \<^verbatim>\<open>int\<close>s is
  truncated toward zero. The divisor in \<^verbatim>\<open>ComputeAverageRating\<close> is the size of a vector that
  is not empty, converted to \<^verbatim>\<open>int\<close>: it is positive for every vector of fewer than
  \<open>2^31\<close> elements, the only ones the theorems speak of.
\<close>

definition INT_MIN :: int where
  "INT_MIN = - 2147483648"

definition INT_MAX :: int where
  "INT_MAX = 2147483647"

definition wrap32 :: "int \<Rightarrow> int" where
  "wrap32 x = (x + 2147483648) mod 4294967296 - 2147483648"

definition int_div :: "int \<Rightarrow> int \<Rightarrow> int" where
  "int_div a b = wrap32 (sgn a * sgn b * (\<bar>a\<bar> div \<bar>b\<bar>))"

fun accumulate :: "int list \<Rightarrow> int \<Rightarrow> int" where
  "accumulate [] init = init"
| "accumulate (x # xs) init = accumulate xs (wrap32 (init + x))"

text \<open>
  The partial sums of \<^verbatim>\<open>std::accumulate\<close> all fit an \<^verbatim>\<open>int\<close>: the run the language
  defines.
\<close>

fun no_overflow :: "int list \<Rightarrow> int \<Rightarrow> bool" where
  "no_overflow [] init = True"
| "no_overflow (x # xs) init =
     (INT_MIN \<le> init + x \<and> init + x \<le> INT_MAX \<and> no_overflow xs (init + x))"

definition ComputeAverageRating :: "int list \<Rightarrow> int" where
  "ComputeAverageRating ratings =
     (if ratings = [] then 0
      else int_div (accumulate ratings 0) (wrap32 (int (length ratings))))"

subsection \<open>The containers\<close>

text \<open>
  A \<^verbatim>\<open>std::map\<close> is the list of its entries in ascending key order, a \<^verbatim>\<open>std::set\<close> the
  list of its elements in ascending order: the order is the one the code's range-for loops
  run in. Strings compare byte by byte, as \<^verbatim>\<open>std::string\<close> does. \<open>map_of\<close> is the lookup.
\<close>

fun map_set :: "'k::linorder \<Rightarrow> 'v \<Rightarrow> ('k \<times> 'v) list \<Rightarrow> ('k \<times> 'v) list" where
  "map_set k v [] = [(k, v)]"
| "map_set k v ((k', v') # m) =
     (if k < k' then (k, v) # (k', v') # m
      else if k = k' then (k, v) # m
      else (k', v') # map_set k v m)"

fun map_erase :: "'k \<Rightarrow> ('k \<times> 'v) list \<Rightarrow> ('k \<times> 'v) list" where
  "map_erase k [] = []"
| "map_erase k ((k', v') # m) = (if k = k' then m else (k', v') # map_erase k m)"

fun set_insert :: "'a::linorder \<Rightarrow> 'a list \<Rightarrow> 'a list" where
  "set_insert x [] = [x]"
| "set_insert x (y # ys) =
     (if x < y then x # y # ys
      else if x = y then y # ys
      else y # set_insert x ys)"

subsection \<open>Splitting text into words\<close>

text \<open>
  \<^verbatim>\<open>SplitIntoWords\<close> reads the text through \<^verbatim>\<open>istream_iterator<string>\<close>: words are the
  maximal runs of characters that are not white space in the classic locale (space and the
  bytes 9 to 13).
\<close>

definition isspace :: "char \<Rightarrow> bool" where
  "isspace c = (c = CHR '' '' \<or> (9 \<le> (of_char c :: nat) \<and> (of_char c :: nat) \<le> 13))"

fun split_words :: "string \<Rightarrow> string \<Rightarrow> string list" where
  "split_words [] word = (if word = [] then [] else [word])"
| "split_words (c # cs) word =
     (if isspace c then (if word = [] then split_words cs [] else word # split_words cs [])
      else split_words cs (word @ [c]))"

definition SplitIntoWords :: "string \<Rightarrow> string list" where
  "SplitIntoWords text = split_words text []"

fun MakeUniqueNonEmptyStrings :: "string list \<Rightarrow> string list" where
  "MakeUniqueNonEmptyStrings [] = []"
| "MakeUniqueNonEmptyStrings (str # strings) =
     (if str \<noteq> [] then set_insert str (MakeUniqueNonEmptyStrings strings)
      else MakeUniqueNonEmptyStrings strings)"

subsection \<open>The server\<close>

datatype DocumentStatus = ACTUAL | IRRELEVANT | BANNED | REMOVED

record Document =
  doc_id :: int
  relevance :: double
  status :: DocumentStatus
  rating :: int

record Query =
  plus_words :: "string list"
  minus_words :: "string list"

record QueryWord =
  data :: string
  is_minus :: bool
  is_stop :: bool

record SearchServer =
  tf :: "(string \<times> (int \<times> double) list) list"
  stop_words :: "string list"
  document_id_to_rating_and_rating :: "(int \<times> (int \<times> DocumentStatus)) list"
  document_id_orders :: "int list"

text \<open>
  A \<^verbatim>\<open>char\<close> is a signed byte here; \<^verbatim>\<open>0 <= c && c <= 31\<close> holds for the same bytes when
  \<^verbatim>\<open>char\<close> is unsigned.
\<close>

definition char_value :: "char \<Rightarrow> int" where
  "char_value c =
     (if (of_char c :: nat) < 128 then int (of_char c) else int (of_char c) - 256)"

definition IsInvalid :: "string \<Rightarrow> bool" where
  "IsInvalid text = list_ex (\<lambda>c. 0 \<le> char_value c \<and> char_value c \<le> 31) text"

definition empty_server :: SearchServer where
  "empty_server =
     \<lparr>tf = [], stop_words = [], document_id_to_rating_and_rating = [],
      document_id_orders = []\<rparr>"

text \<open>The three constructors: default, from a container of stop words, from a string.\<close>

definition SearchServer_of_container :: "string list \<Rightarrow> error + SearchServer" where
  "SearchServer_of_container words =
     (let uniquie_stop_words = MakeUniqueNonEmptyStrings words
      in if list_ex IsInvalid uniquie_stop_words then Inl InvalidStopWord
         else Inr (empty_server\<lparr>stop_words := uniquie_stop_words\<rparr>))"

definition SearchServer_of_string :: "string \<Rightarrow> error + SearchServer" where
  "SearchServer_of_string text = SearchServer_of_container (SplitIntoWords text)"

definition IsStopWord :: "SearchServer \<Rightarrow> string \<Rightarrow> bool" where
  "IsStopWord s word = (word \<in> set (stop_words s))"

definition SplitIntoWordsNoStop :: "SearchServer \<Rightarrow> string \<Rightarrow> string list" where
  "SplitIntoWordsNoStop s text = filter (\<lambda>word. \<not> IsStopWord s word) (SplitIntoWords text)"

text \<open>\<^verbatim>\<open>tf_[word][document_id] += step\<close>: both subscripts create a missing entry.\<close>

definition add_step :: "string \<Rightarrow> int \<Rightarrow> double \<Rightarrow> (string \<times> (int \<times> double) list) list
    \<Rightarrow> (string \<times> (int \<times> double) list) list" where
  "add_step word document_id step t =
     (let postings = (case map_of t word of None \<Rightarrow> [] | Some m \<Rightarrow> m);
          old = (case map_of postings document_id of None \<Rightarrow> Fin 0 | Some v \<Rightarrow> v)
      in map_set word (map_set document_id (dadd old step) postings) t)"

fun add_words :: "string list \<Rightarrow> int \<Rightarrow> double \<Rightarrow> (string \<times> (int \<times> double) list) list
    \<Rightarrow> (string \<times> (int \<times> double) list) list" where
  "add_words [] document_id step t = t"
| "add_words (word # words) document_id step t =
     add_words words document_id step (add_step word document_id step t)"

text \<open>The quotient \<^verbatim>\<open>1. / words.size()\<close>, computed before the loop whatever the size is.\<close>

definition tf_step :: "string list \<Rightarrow> double" where
  "tf_step words = ddiv (Fin 1) (of_size (length words))"

definition AddDocument :: "SearchServer \<Rightarrow> int \<Rightarrow> string \<Rightarrow> DocumentStatus \<Rightarrow> int list
    \<Rightarrow> (error + unit) \<times> SearchServer" where
  "AddDocument s document_id document document_status ratings =
     (if document_id < 0 \<or>
         map_of (document_id_to_rating_and_rating s) document_id \<noteq> None \<or>
         IsInvalid document
      then (Inl InvalidDocument, s)
      else
        let words = SplitIntoWordsNoStop s document;
            s1 = s\<lparr>document_id_to_rating_and_rating :=
                   map_set document_id (ComputeAverageRating ratings, document_status)
                     (document_id_to_rating_and_rating s)\<rparr>;
            step = tf_step words;
            s2 = s1\<lparr>tf := add_words words document_id step (tf s1)\<rparr>
        in (Inr (), s2\<lparr>document_id_orders := document_id_orders s2 @ [document_id]\<rparr>))"

definition GetDocumentCount :: "SearchServer \<Rightarrow> int" where
  "GetDocumentCount s = int (length (document_id_orders s))"

definition GetDocumentId :: "SearchServer \<Rightarrow> int \<Rightarrow> error + int" where
  "GetDocumentId s index =
     (if 0 \<le> index \<and> nat index < length (document_id_orders s)
      then Inr (document_id_orders s ! nat index)
      else Inl out_of_range)"

subsection \<open>Parsing a query\<close>

definition ParseQueryWord :: "SearchServer \<Rightarrow> string \<Rightarrow> error + QueryWord" where
  "ParseQueryWord s text =
     (if IsInvalid text then Inl InvalidQueryText
      else
        (case text of
           [] \<Rightarrow> Inr \<lparr>data = text, is_minus = False, is_stop = IsStopWord s text\<rparr>
         | c # rest \<Rightarrow>
             if c = CHR ''-'' then
               (if rest = [] \<or> hd rest = CHR ''-'' then Inl InvalidMinusWord
                else Inr \<lparr>data = rest, is_minus = True, is_stop = IsStopWord s rest\<rparr>)
             else Inr \<lparr>data = text, is_minus = False, is_stop = IsStopWord s text\<rparr>))"

fun parse_words :: "SearchServer \<Rightarrow> string list \<Rightarrow> Query \<Rightarrow> error + Query" where
  "parse_words s [] query = Inr query"
| "parse_words s (word # words) query =
     (case ParseQueryWord s word of
        Inl e \<Rightarrow> Inl e
      | Inr query_word \<Rightarrow>
          parse_words s words
            (if is_stop query_word then query
             else if is_minus query_word
               then query\<lparr>minus_words := set_insert (data query_word) (minus_words query)\<rparr>
               else query\<lparr>plus_words := set_insert (data query_word) (plus_words query)\<rparr>))"

definition ParseQuery :: "SearchServer \<Rightarrow> string \<Rightarrow> error + Query" where
  "ParseQuery s text =
     parse_words s (SplitIntoWordsNoStop s text) \<lparr>plus_words = [], minus_words = []\<rparr>"

subsection \<open>Relevance\<close>

definition CalculateIDF :: "SearchServer \<Rightarrow> nat \<Rightarrow> double" where
  "CalculateIDF s documents_number =
     dlog (ddiv (of_size (length (document_id_orders s))) (of_size documents_number))"

text \<open>\<^verbatim>\<open>relevance[document_id] += idf * tf_value\<close>, for every posting of one word.\<close>

fun add_postings :: "double \<Rightarrow> (int \<times> double) list \<Rightarrow> (int \<times> double) list
    \<Rightarrow> (int \<times> double) list" where
  "add_postings idf [] rel = rel"
| "add_postings idf ((document_id, tf_value) # postings) rel =
     add_postings idf postings
       (map_set document_id
          (dadd (case map_of rel document_id of None \<Rightarrow> Fin 0 | Some v \<Rightarrow> v)
             (dmul idf tf_value))
          rel)"

fun plus_loop :: "SearchServer \<Rightarrow> string list \<Rightarrow> (int \<times> double) list
    \<Rightarrow> (int \<times> double) list" where
  "plus_loop s [] rel = rel"
| "plus_loop s (word # words) rel =
     (case map_of (tf s) word of
        None \<Rightarrow> plus_loop s words rel
      | Some postings \<Rightarrow>
          plus_loop s words
            (add_postings (CalculateIDF s (length postings)) postings rel))"

fun erase_postings :: "(int \<times> double) list \<Rightarrow> (int \<times> double) list
    \<Rightarrow> (int \<times> double) list" where
  "erase_postings [] rel = rel"
| "erase_postings ((document_id, tf_value) # postings) rel =
     erase_postings postings (map_erase document_id rel)"

fun minus_loop :: "SearchServer \<Rightarrow> string list \<Rightarrow> (int \<times> double) list
    \<Rightarrow> (int \<times> double) list" where
  "minus_loop s [] rel = rel"
| "minus_loop s (word # words) rel =
     (case map_of (tf s) word of
        None \<Rightarrow> minus_loop s words rel
      | Some postings \<Rightarrow> minus_loop s words (erase_postings postings rel))"

text \<open>The last loop reads rating and status with \<^verbatim>\<open>at\<close>, which throws on a missing id.\<close>

fun emit_documents :: "SearchServer \<Rightarrow> (int \<times> double) list \<Rightarrow> error + Document list" where
  "emit_documents s [] = Inr []"
| "emit_documents s ((document_id, rel) # rest) =
     (case map_of (document_id_to_rating_and_rating s) document_id of
        None \<Rightarrow> Inl out_of_range
      | Some (doc_rating, doc_status) \<Rightarrow>
          (case emit_documents s rest of
             Inl e \<Rightarrow> Inl e
           | Inr docs \<Rightarrow>
               Inr (\<lparr>doc_id = document_id, relevance = rel, status = doc_status,
                     rating = doc_rating\<rparr> # docs)))"

definition FindAllDocuments :: "SearchServer \<Rightarrow> Query \<Rightarrow> error + Document list" where
  "FindAllDocuments s query_words =
     emit_documents s
       (minus_loop s (minus_words query_words) (plus_loop s (plus_words query_words) []))"

subsection \<open>Ranking\<close>

text \<open>The comparator handed to \<^verbatim>\<open>std::sort\<close>.\<close>

definition by_relevance :: "Document \<Rightarrow> Document \<Rightarrow> bool" where
  "by_relevance lhs rhs =
     (dless (relevance rhs) (relevance lhs) \<or>
      (dless (dabs (dsub (relevance lhs) (relevance rhs))) EPSILON \<and> rating rhs < rating lhs))"

text \<open>
  \<^verbatim>\<open>std::sort\<close> belongs to the C++ library, not to the repository: the ranking takes the
  sorting function as its first argument. The library promises a sorted permutation only for
  a comparator that is a strict weak ordering. \<open>insertion_sort\<close> is what the GNU library runs
  on a range of at most 16 elements: the element at \<open>i\<close> goes to the front when it compares
  before the first element, and otherwise moves left past every element it compares before.
\<close>

fun linear_insert :: "('a \<Rightarrow> 'a \<Rightarrow> bool) \<Rightarrow> 'a \<Rightarrow> 'a list \<Rightarrow> 'a list" where
  "linear_insert cmp val [] = [val]"
| "linear_insert cmp val (x # before) =
     (if cmp val x then x # linear_insert cmp val before else val # x # before)"

text \<open>
  \<open>linear_insert\<close> works on the sorted prefix in reverse, last element first, as the loop of
  \<^verbatim>\<open>__unguarded_linear_insert\<close> walks it.
\<close>

fun insertion_loop :: "('a \<Rightarrow> 'a \<Rightarrow> bool) \<Rightarrow> 'a list \<Rightarrow> 'a list \<Rightarrow> 'a list" where
  "insertion_loop cmp prefix [] = prefix"
| "insertion_loop cmp prefix (val # todo) =
     insertion_loop cmp
       (case prefix of
          [] \<Rightarrow> [val]
        | first # others \<Rightarrow>
            if cmp val first then val # prefix
            else rev (linear_insert cmp val (rev prefix)))
       todo"

definition insertion_sort :: "('a \<Rightarrow> 'a \<Rightarrow> bool) \<Rightarrow> 'a list \<Rightarrow> 'a list" where
  "insertion_sort cmp xs = insertion_loop cmp [] xs"

definition FindTopDocuments ::
    "((Document \<Rightarrow> Document \<Rightarrow> bool) \<Rightarrow> Document list \<Rightarrow> Document list)
     \<Rightarrow> SearchServer \<Rightarrow> string \<Rightarrow> (int \<Rightarrow> DocumentStatus \<Rightarrow> int \<Rightarrow> bool)
     \<Rightarrow> error + Document list" where
  "FindTopDocuments std_sort s raw_query pred =
     (case ParseQuery s raw_query of
        Inl e \<Rightarrow> Inl e
      | Inr query_words \<Rightarrow>
          (case FindAllDocuments s query_words of
             Inl e \<Rightarrow> Inl e
           | Inr found \<Rightarrow>
               let matched_documents = std_sort by_relevance found;
                   kept = filter (\<lambda>lhs. pred (doc_id lhs) (status lhs) (rating lhs))
                            matched_documents
               in Inr (if MAX_RESULT_DOCUMENT_COUNT < length kept
                       then take MAX_RESULT_DOCUMENT_COUNT kept else kept)))"

definition FindTopDocuments_status ::
    "((Document \<Rightarrow> Document \<Rightarrow> bool) \<Rightarrow> Document list \<Rightarrow> Document list)
     \<Rightarrow> SearchServer \<Rightarrow> string \<Rightarrow> DocumentStatus \<Rightarrow> error + Document list" where
  "FindTopDocuments_status std_sort s raw_query wanted =
     FindTopDocuments std_sort s raw_query (\<lambda>document_id status' rating'. status' = wanted)"

subsection \<open>Matching one document\<close>

text \<open>
  The loop over the minus words reads \<^verbatim>\<open>tf_.at(word)\<close> with no test that the word is a
  key; the loop over the plus words tests \<^verbatim>\<open>tf_.count(word)\<close> first.
\<close>

fun minus_hit :: "SearchServer \<Rightarrow> int \<Rightarrow> string list \<Rightarrow> error + bool" where
  "minus_hit s document_id [] = Inr False"
| "minus_hit s document_id (word # words) =
     (case map_of (tf s) word of
        None \<Rightarrow> Inl out_of_range
      | Some postings \<Rightarrow>
          if map_of postings document_id \<noteq> None then Inr True
          else minus_hit s document_id words)"

fun plus_hits :: "SearchServer \<Rightarrow> int \<Rightarrow> string list \<Rightarrow> string list \<Rightarrow> string list" where
  "plus_hits s document_id [] matched_words = matched_words"
| "plus_hits s document_id (word # words) matched_words =
     plus_hits s document_id words
       (case map_of (tf s) word of
          None \<Rightarrow> matched_words
        | Some postings \<Rightarrow>
            if map_of postings document_id \<noteq> None then set_insert word matched_words
            else matched_words)"

definition MatchDocument :: "SearchServer \<Rightarrow> string \<Rightarrow> int
    \<Rightarrow> error + (string list \<times> DocumentStatus)" where
  "MatchDocument s raw_query document_id =
     (case ParseQuery s raw_query of
        Inl e \<Rightarrow> Inl e
      | Inr query \<Rightarrow>
          (case map_of (document_id_to_rating_and_rating s) document_id of
             None \<Rightarrow> Inl out_of_range
           | Some (doc_rating, doc_status) \<Rightarrow>
               (case minus_hit s document_id (minus_words query) of
                  Inl e \<Rightarrow> Inl e
                | Inr True \<Rightarrow> Inr ([], doc_status)
                | Inr False \<Rightarrow>
                    Inr (plus_hits s document_id (plus_words query) [], doc_status))))"

subsection \<open>Reachable states\<close>

text \<open>
  A state is reachable when a constructor returned it, or \<^verbatim>\<open>AddDocument\<close> left it behind
  (with or without an exception) in a reachable state. The other members are \<^verbatim>\<open>const\<close>.
\<close>

inductive reachable :: "SearchServer \<Rightarrow> bool" where
  default: "reachable empty_server"
| container: "SearchServer_of_container words = Inr s \<Longrightarrow> reachable s"
| add: "reachable s \<Longrightarrow> AddDocument s document_id document document_status ratings = (r, s')
        \<Longrightarrow> reachable s'"

subsection \<open>The relevance the specification describes\<close>

text \<open>
  These definitions follow the words of the specification, not the code: the documents that
  contain a term (those in its postings), the inverse document frequency
  \<open>ln (total document count / number of documents containing the term)\<close>, the term frequency
  stored in a posting, the relevance of a document as the sum of \<open>idf * tf\<close> over the plus
  terms whose postings hold the document, and the documents that survive the minus
  terms.
\<close>

definition spec_postings :: "SearchServer \<Rightarrow> string \<Rightarrow> (int \<times> double) list" where
  "spec_postings s w = (case map_of (tf s) w of None \<Rightarrow> [] | Some ps \<Rightarrow> ps)"

definition spec_containing :: "SearchServer \<Rightarrow> string \<Rightarrow> int set" where
  "spec_containing s w = fst ` set (spec_postings s w)"





subsection \<open>The invariant of the index\<close>

text \<open>
  Postings are never empty, are in ascending order of document id, belong to registered
  documents and carry finite positive weights. The insertion order lists every registered
  document once. No stop word is a key of the inverted index.
\<close>

definition wf_postings :: "int set \<Rightarrow> (int \<times> double) list \<Rightarrow> bool" where
  "wf_postings D ps \<longleftrightarrow>
     ps \<noteq> [] \<and> sorted_wrt (<) (map fst ps) \<and> fst ` set ps \<subseteq> D \<and>
     (\<forall>v \<in> snd ` set ps. \<exists>x. v = Fin x \<and> 0 < x)"

definition wf_index :: "SearchServer \<Rightarrow> bool" where
  "wf_index s \<longleftrightarrow>
     distinct (document_id_orders s) \<and>
     set (document_id_orders s) = fst ` set (document_id_to_rating_and_rating s) \<and>
     (\<forall>w ps. map_of (tf s) w = Some ps \<longrightarrow> wf_postings (fst ` set (document_id_to_rating_and_rating s)) ps) \<and>
     (\<forall>w \<in> set (stop_words s). map_of (tf s) w = None)"


definition val :: "(int \<times> double) list \<Rightarrow> int \<Rightarrow> real" where
  "val rel d = (case map_of rel d of Some (Fin x) \<Rightarrow> x | _ \<Rightarrow> 0)"

subsection \<open>The ranking order of a result list\<close>

text \<open>
  The order the specification asks of a result list, in its words: for every adjacent pair
  \<open>(a, b)\<close>, the relevance of \<open>a\<close> is greater than that of \<open>b\<close>, or the two are equal
  within \<^verbatim>\<open>EPSILON\<close> and the rating of \<open>a\<close> is at least that of \<open>b\<close>.
\<close>

definition spec_ranked_before :: "Document \<Rightarrow> Document \<Rightarrow> bool" where
  "spec_ranked_before a b =
     (dless (relevance b) (relevance a) \<or>
      (dless (dabs (dsub (relevance a) (relevance b))) EPSILON \<and> rating b \<le> rating a))"

fun spec_ranking_order :: "Document list \<Rightarrow> bool" where
  "spec_ranking_order (a # b # docs) =
     (spec_ranked_before a b \<and> spec_ranking_order (b # docs))"
| "spec_ranking_order docs = True"

subsection \<open>Example states\<close>

text \<open>States the theorems below are tried on, each built by the code itself.\<close>

definition in_the_server :: SearchServer where
  "in_the_server = empty_server\<lparr>stop_words := [''in'', ''the'']\<rparr>"

definition cat_server :: SearchServer where
  "cat_server = snd (AddDocument in_the_server 0 ''cat in the city'' ACTUAL [1])"



text \<open>
  A text of \<open>n + 1\<close> words, \<open>x y y ... y\<close>, and a server with four documents: three hold \<open>x\<close>
  once among 1000, 999 and 1000 words, the fourth does not hold it.
\<close>

definition long_text :: "nat \<Rightarrow> string" where
  "long_text n = ''x'' @ concat (replicate n '' y'')"

definition ranking_server :: SearchServer where
  "ranking_server =
     snd (AddDocument (snd (AddDocument (snd (AddDocument (snd (AddDocument empty_server
       0 (long_text 999) ACTUAL [2]))
       1 (long_text 998) BANNED [0]))
       2 (long_text 999) ACTUAL [1]))
       3 ''z'' ACTUAL [1])"

definition six_cats :: SearchServer where
  "six_cats =
     fold (\<lambda>i s. snd (AddDocument s i ''cat'' ACTUAL [i])) [0, 1, 2, 3, 4, 5] empty_server"

section \<open>Evaluation\<close>

lemmas server_eval = AddDocument_def empty_server_def IsInvalid_def char_value_def Let_def
  ComputeAverageRating_def wrap32_def int_div_def SplitIntoWordsNoStop_def SplitIntoWords_def
  isspace_def IsStopWord_def tf_step_def of_size_def add_step_def ParseQuery_def
  ParseQueryWord_def FindAllDocuments_def CalculateIDF_def MatchDocument_def
  FindTopDocuments_def FindTopDocuments_status_def by_relevance_def dsub_def EPSILON_def
  MAX_RESULT_DOCUMENT_COUNT_def insertion_sort_def GetDocumentCount_def GetDocumentId_def
  SearchServer_of_container_def SearchServer_of_string_def signed_inf_def

lemma in_the_server_built: "SearchServer_of_string ''in the'' = Inr in_the_server"
  by (simp add: in_the_server_def server_eval)

lemma reachable_snd_AddDocument:
  "reachable s \<Longrightarrow> reachable (snd (AddDocument s i d st rs))"
  by (rule reachable.add [where r = "fst (AddDocument s i d st rs)"]) simp_all

lemma reachable_in_the_server: "reachable in_the_server"
  using in_the_server_built unfolding SearchServer_of_string_def by (rule reachable.container)

lemma reachable_cat_server: "reachable cat_server"
  unfolding cat_server_def by (intro reachable_snd_AddDocument reachable_in_the_server)


section \<open>Containers\<close>

lemma map_of_map_set: "map_of (map_set k v m) = (map_of m)(k \<mapsto> v)"
  by (induction m) (auto simp: fun_eq_iff)

lemma set_set_insert: "set (set_insert x xs) = insert x (set xs)"
  by (induction xs) auto

lemma keys_map_set: "fst ` set (map_set k v m) = insert k (fst ` set m)"
  by (induction m) (force split: if_splits)+

lemma sorted_map_set:
  "sorted_wrt (<) (map fst m) \<Longrightarrow> sorted_wrt (<) (map fst (map_set k v m))"
proof (induction m)
  case Nil
  then show ?case by simp
next
  case (Cons e m)
  obtain k' v' where e: "e = (k', v')" by (cases e)
  from Cons.prems have low: "\<forall>y \<in> fst ` set m. k' < y" and rest: "sorted_wrt (<) (map fst m)"
    by (auto simp: e)
  show ?case
  proof (cases "k < k'")
    case True
    then show ?thesis using Cons.prems low by (auto simp: e)
  next
    case False
    show ?thesis
    proof (cases "k = k'")
      case True
      then show ?thesis using Cons.prems by (simp add: e)
    next
      case ne: False
      with False have "k' < k" by simp
      then have "\<forall>y \<in> fst ` set (map_set k v m). k' < y"
        using low by (simp add: keys_map_set)
      then show ?thesis using False ne Cons.IH [OF rest] by (simp add: e)
    qed
  qed
qed



lemma keys_map_erase: "fst ` set (map_erase k m) \<subseteq> fst ` set m"
  by (induction m) (force split: if_splits)+



lemma distinct_map_erase: "distinct (map fst m) \<Longrightarrow> distinct (map fst (map_erase k m))"
  by (induction m) (use keys_map_erase in \<open>force split: if_splits\<close>)+

section \<open>Adding a document\<close>

lemma AddDocument_documents:
  "AddDocument s i d st rs = (Inr (), s') \<Longrightarrow>
     document_id_to_rating_and_rating s' = map_set i (ComputeAverageRating rs, st) (document_id_to_rating_and_rating s)"
  by (auto simp: AddDocument_def Let_def split: if_splits)

lemma char_value_control:
  "(0 \<le> char_value c \<and> char_value c \<le> 31) \<longleftrightarrow> (of_char c :: nat) \<le> 31"
  using nat_of_char_less_256 [of c]
  by (auto simp: char_value_def simp del: nat_of_char_less_256)

lemma IsInvalid_iff: "IsInvalid text \<longleftrightarrow> (\<exists>c \<in> set text. (of_char c :: nat) \<le> 31)"
  by (simp add: IsInvalid_def list_ex_iff char_value_control)

lemma map_of_keys: "(map_of m k = None) = (k \<notin> fst ` set m)"
  by (simp add: map_of_eq_None_iff)

text \<open>
  Claim C2. \<^verbatim>\<open>AddDocument\<close> throws its \<^verbatim>\<open>invalid_argument\<close> exactly when the id is
  negative, or the id is already a key of the document store, or the text holds a byte from 0
  to 31; it throws nothing else; and when it throws, the state it leaves is the state it was
  called in (inverted index, document store, insertion order and with it the document count).
\<close>

theorem AddDocument_fails_iff:
  "(fst (AddDocument s document_id document document_status ratings) = Inl InvalidDocument
      \<longleftrightarrow> document_id < 0 \<or> document_id \<in> fst ` set (document_id_to_rating_and_rating s) \<or>
           (\<exists>c \<in> set document. (of_char c :: nat) \<le> 31)) \<and>
   (fst (AddDocument s document_id document document_status ratings) = Inl InvalidDocument \<or>
    fst (AddDocument s document_id document document_status ratings) = Inr ()) \<and>
   (fst (AddDocument s document_id document document_status ratings) = Inl InvalidDocument
      \<longrightarrow> snd (AddDocument s document_id document document_status ratings) = s)"
proof -
  let ?bad = "document_id < 0 \<or> map_of (document_id_to_rating_and_rating s) document_id \<noteq> None \<or> IsInvalid document"
  have bad: "?bad \<longleftrightarrow> document_id < 0 \<or> document_id \<in> fst ` set (document_id_to_rating_and_rating s) \<or>
           (\<exists>c \<in> set document. (of_char c :: nat) \<le> 31)"
    by (simp only: IsInvalid_iff map_of_keys not_not)
  show ?thesis
  proof (cases ?bad)
    case True
    then have "AddDocument s document_id document document_status ratings
        = (Inl InvalidDocument, s)"
      by (simp only: AddDocument_def if_True)
    then show ?thesis using True bad by simp
  next
    case False
    then have "fst (AddDocument s document_id document document_status ratings) = Inr ()"
      by (simp only: AddDocument_def if_False Let_def fst_conv)
    then show ?thesis using False bad by simp
  qed
qed

theorem AddDocument_fails_iff_witness:
  "fst (AddDocument empty_server (- 1) ''cat'' ACTUAL [1]) = Inl InvalidDocument \<and>
   snd (AddDocument empty_server (- 1) ''cat'' ACTUAL [1]) = empty_server \<and>
   fst (AddDocument empty_server 0 ''cat'' ACTUAL [1]) = Inr ()"
  using AddDocument_fails_iff [of empty_server "- 1" "''cat''" ACTUAL "[1]"]
    AddDocument_fails_iff [of empty_server 0 "''cat''" ACTUAL "[1]"]
  by (simp add: server_eval)

section \<open>The rating of a document\<close>

lemma wrap32_id: "INT_MIN \<le> x \<Longrightarrow> x \<le> INT_MAX \<Longrightarrow> wrap32 x = x"
  by (simp add: wrap32_def INT_MIN_def INT_MAX_def)

lemma accumulate_sum: "no_overflow xs init \<Longrightarrow> accumulate xs init = init + sum_list xs"
  by (induction xs arbitrary: init) (auto simp: wrap32_id)

lemma no_overflow_range:
  "no_overflow xs init \<Longrightarrow> INT_MIN \<le> init \<Longrightarrow> init \<le> INT_MAX \<Longrightarrow>
     INT_MIN \<le> init + sum_list xs \<and> init + sum_list xs \<le> INT_MAX"
proof (induction xs arbitrary: init)
  case Nil
  then show ?case by simp
next
  case (Cons x xs)
  from Cons.prems have "no_overflow xs (init + x)" "INT_MIN \<le> init + x" "init + x \<le> INT_MAX"
    by simp_all
  from Cons.IH [OF this] show ?case by (simp add: add.assoc)
qed

lemma int_div_trunc:
  assumes "INT_MIN \<le> a" "a \<le> INT_MAX" "0 < n"
  shows "int_div a n = (if 0 \<le> a then a div n else - ((- a) div n))"
proof -
  have q: "\<bar>a\<bar> div n \<le> \<bar>a\<bar>" "0 \<le> \<bar>a\<bar> div n"
    using assms(3) zdiv_mono2 [of "\<bar>a\<bar>" 1 n] by (simp_all add: div_int_pos_iff)
  have n: "\<bar>n\<bar> = n" "sgn n = 1" using assms(3) by simp_all
  show ?thesis
  proof (cases "0 \<le> a")
    case True
    have e: "sgn a * sgn n * (\<bar>a\<bar> div \<bar>n\<bar>) = a div n"
      using True by (cases "a = 0") (simp_all add: n)
    have "INT_MIN \<le> a div n" "a div n \<le> INT_MAX"
      using True q assms by (auto simp: INT_MIN_def)
    then have "wrap32 (a div n) = a div n" by (rule wrap32_id)
    then show ?thesis using True by (simp only: int_div_def e if_True)
  next
    case False
    have e: "sgn a * sgn n * (\<bar>a\<bar> div \<bar>n\<bar>) = - ((- a) div n)"
      using False by (simp add: n)
    have "INT_MIN \<le> - ((- a) div n)" "- ((- a) div n) \<le> INT_MAX"
      using False q assms by (auto simp: INT_MIN_def INT_MAX_def)
    then have "wrap32 (- ((- a) div n)) = - ((- a) div n)" by (rule wrap32_id)
    then show ?thesis using False by (simp only: int_div_def e if_False)
  qed
qed

lemma ComputeAverageRating_trunc:
  assumes "no_overflow ratings 0" "length ratings \<le> nat INT_MAX"
  shows "ComputeAverageRating ratings =
     (if ratings = [] then 0
      else if 0 \<le> sum_list ratings then sum_list ratings div int (length ratings)
      else - ((- sum_list ratings) div int (length ratings)))"
proof (cases "ratings = []")
  case True
  then show ?thesis by (simp add: ComputeAverageRating_def)
next
  case False
  then have n: "0 < int (length ratings)" by simp
  have w: "wrap32 (int (length ratings)) = int (length ratings)"
    using assms(2) by (intro wrap32_id) (auto simp: INT_MIN_def INT_MAX_def)
  have r: "INT_MIN \<le> sum_list ratings" "sum_list ratings \<le> INT_MAX"
    using no_overflow_range [OF assms(1)] by (auto simp: INT_MIN_def INT_MAX_def)
  show ?thesis
    using False by (simp add: ComputeAverageRating_def w accumulate_sum [OF assms(1)]
        int_div_trunc [OF r n])
qed

text \<open>
  Claim C6, as the code has it. The claim says the stored rating is the floor of the sum of
  the ratings divided by their count. The code divides two \<^verbatim>\<open>int\<close>s, and that quotient is
  truncated toward zero: when a document is added with ratings whose partial sums all fit an
  \<^verbatim>\<open>int\<close>, the rating stored for it is 0 for no ratings, the floor of sum / count for a sum
  that is not negative, and minus the floor of (- sum) / count for a negative sum.
\<close>

theorem stored_rating_truncates:
  assumes "AddDocument s document_id document document_status ratings = (Inr (), s')"
    and "no_overflow ratings 0" and "length ratings \<le> nat INT_MAX"
  shows "map_of (document_id_to_rating_and_rating s') document_id =
     Some (if ratings = [] then 0
           else if 0 \<le> sum_list ratings then sum_list ratings div int (length ratings)
           else - ((- sum_list ratings) div int (length ratings)), document_status)"
  using AddDocument_documents [OF assms(1)] ComputeAverageRating_trunc [OF assms(2,3)]
  by (simp add: map_of_map_set)

text \<open>
  The theorem at the ratings \<open>[-7, 2]\<close>: the sum is -5, the stored rating -2.
\<close>

theorem stored_rating_truncates_witness:
  "AddDocument empty_server 0 ''cat'' ACTUAL [- 7, 2] =
     (Inr (), \<lparr>tf = [(''cat'', [(0, Fin 1)])], stop_words = [],
        document_id_to_rating_and_rating = [(0, - 2, ACTUAL)], document_id_orders = [0]\<rparr>) \<and>
   no_overflow [- 7, 2] 0 \<and> length [- 7, 2 :: int] \<le> nat INT_MAX \<and>
   map_of (document_id_to_rating_and_rating \<lparr>tf = [(''cat'', [(0, Fin 1)])], stop_words = [],
        document_id_to_rating_and_rating = [(0, - 2, ACTUAL)], document_id_orders = [0]\<rparr>) 0 = Some (- 2, ACTUAL)"
proof -
  have a: "AddDocument empty_server 0 ''cat'' ACTUAL [- 7, 2] =
     (Inr (), \<lparr>tf = [(''cat'', [(0, Fin 1)])], stop_words = [],
        document_id_to_rating_and_rating = [(0, - 2, ACTUAL)], document_id_orders = [0]\<rparr>)"
    by (simp add: AddDocument_def empty_server_def IsInvalid_def char_value_def Let_def
      ComputeAverageRating_def wrap32_def int_div_def SplitIntoWordsNoStop_def SplitIntoWords_def
      isspace_def IsStopWord_def tf_step_def of_size_def add_step_def)
  have b: "no_overflow [- 7, 2] 0" by (simp add: INT_MIN_def INT_MAX_def)
  have c: "length [- 7, 2 :: int] \<le> nat INT_MAX" by (simp add: INT_MAX_def)
  show ?thesis using a b c stored_rating_truncates [OF a b c] by simp
qed

text \<open>
  Claim C6 as stated fails: for the ratings \<open>[-3, 0]\<close> the code stores -1, and the floor of
  -3 / 2 is -2.
\<close>

theorem stored_rating_counterexample:
  "map_of (document_id_to_rating_and_rating (snd (AddDocument empty_server 0 ''cat'' ACTUAL [- 3, 0]))) 0
     = Some (- 1, ACTUAL) \<and>
   sum_list [- 3, 0 :: int] div int (length [- 3, 0 :: int]) = - 2"
  by (simp add: AddDocument_def empty_server_def IsInvalid_def char_value_def Let_def
      ComputeAverageRating_def wrap32_def int_div_def)

section \<open>A document with no words\<close>

text \<open>
  Claim C9, as the code has it. The claim says no division by zero is performed. The code
  computes \<^verbatim>\<open>1. / words.size()\<close> before the loop, also for an empty word list: the divisor
  is then zero and the quotient is infinite. The quotient is used only inside the loop, which
  does not run: the inverted index is unchanged (no posting is created), and the document is
  registered with its rating and status, at the end of the insertion order, and counted.
\<close>

theorem AddDocument_without_words:
  assumes "AddDocument s document_id document document_status ratings = (Inr (), s')"
    and "SplitIntoWordsNoStop s document = []"
  shows "of_size (length (SplitIntoWordsNoStop s document)) = Fin 0 \<and>
         tf_step (SplitIntoWordsNoStop s document) = PInf \<and>
         tf s' = tf s \<and>
         map_of (document_id_to_rating_and_rating s') document_id =
           Some (ComputeAverageRating ratings, document_status) \<and>
         document_id_orders s' = document_id_orders s @ [document_id] \<and>
         GetDocumentCount s' = GetDocumentCount s + 1 \<and>
         GetDocumentId s' (GetDocumentCount s) = Inr document_id"
  using assms
  by (auto simp: AddDocument_def Let_def tf_step_def of_size_def signed_inf_def
      map_of_map_set GetDocumentCount_def GetDocumentId_def split: if_splits)

theorem AddDocument_without_words_witness:
  "AddDocument in_the_server 7 ''in the'' BANNED [4] =
     (Inr (), \<lparr>tf = [], stop_words = [''in'', ''the''],
        document_id_to_rating_and_rating = [(7, 4, BANNED)],
        document_id_orders = [7]\<rparr>) \<and>
   SplitIntoWordsNoStop in_the_server ''in the'' = [] \<and>
   tf_step (SplitIntoWordsNoStop in_the_server ''in the'') = PInf \<and>
   GetDocumentId \<lparr>tf = [], stop_words = [''in'', ''the''],
      document_id_to_rating_and_rating = [(7, 4, BANNED)],
        document_id_orders = [7]\<rparr> 0 = Inr 7"
proof -
  have a: "AddDocument in_the_server 7 ''in the'' BANNED [4] =
     (Inr (), \<lparr>tf = [], stop_words = [''in'', ''the''],
        document_id_to_rating_and_rating = [(7, 4, BANNED)],
        document_id_orders = [7]\<rparr>)"
    by (simp add: in_the_server_def server_eval)
  have b: "SplitIntoWordsNoStop in_the_server ''in the'' = []"
    by (simp add: in_the_server_def server_eval)
  show ?thesis using a b AddDocument_without_words [OF a b]
    by (simp add: GetDocumentCount_def in_the_server_def empty_server_def)
qed

text \<open>
  Claim C9 as stated fails: adding a document of stop words only divides 1 by the size 0.
\<close>

theorem AddDocument_divides_by_zero:
  "fst (AddDocument in_the_server 7 ''in the'' BANNED [4]) = Inr () \<and>
   of_size (length (SplitIntoWordsNoStop in_the_server ''in the'')) = Fin 0 \<and>
   tf_step (SplitIntoWordsNoStop in_the_server ''in the'') = ddiv (Fin 1) (Fin 0) \<and>
   ddiv (Fin 1) (Fin 0) = PInf"
  by (simp add: in_the_server_def server_eval)

section \<open>Parsing a query\<close>

lemma split_words_nonempty: "[] \<notin> set (split_words cs word)"
  by (induction cs arbitrary: word) auto

lemma SplitIntoWords_nonempty: "[] \<notin> set (SplitIntoWords text)"
  by (simp add: SplitIntoWords_def split_words_nonempty)

lemma SplitIntoWordsNoStop_nonempty: "w \<in> set (SplitIntoWordsNoStop s text) \<Longrightarrow> w \<noteq> []"
  using SplitIntoWords_nonempty [of "text"] by (auto simp: SplitIntoWordsNoStop_def)

lemma ParseQueryWord_Inr:
  "ParseQueryWord s text = Inr qw \<Longrightarrow>
     (is_minus qw \<longrightarrow> text = CHR ''-'' # data qw) \<and>
     (\<not> is_minus qw \<longrightarrow> text = data qw \<and> (text = [] \<or> hd text \<noteq> CHR ''-'')) \<and>
     is_stop qw = IsStopWord s (data qw)"
  by (auto simp: ParseQueryWord_def split: if_splits list.splits)

lemma ParseQueryWord_minus:
  "ParseQueryWord s (CHR ''-'' # w) = Inr qw \<Longrightarrow> is_minus qw \<and> data qw = w"
  by (auto simp: ParseQueryWord_def split: if_splits list.splits)

lemma parse_words_sets:
  "parse_words s ws q0 = Inr q \<Longrightarrow>
     set (plus_words q) = set (plus_words q0) \<union>
        {w \<in> set ws. \<not> IsStopWord s w \<and> (w = [] \<or> hd w \<noteq> CHR ''-'')} \<and>
     set (minus_words q) = set (minus_words q0) \<union>
        {w. CHR ''-'' # w \<in> set ws \<and> \<not> IsStopWord s w}"
proof (induction ws arbitrary: q0)
  case Nil
  then show ?case by simp
next
  case (Cons word ws)
  from Cons.prems obtain qw where qw: "ParseQueryWord s word = Inr qw"
    by (auto split: sum.splits)
  let ?q1 = "if is_stop qw then q0
             else if is_minus qw
               then q0\<lparr>minus_words := set_insert (data qw) (minus_words q0)\<rparr>
               else q0\<lparr>plus_words := set_insert (data qw) (plus_words q0)\<rparr>"
  from Cons.prems qw have rest: "parse_words s ws ?q1 = Inr q" by simp
  note ih = Cons.IH [OF rest]
  note w = ParseQueryWord_Inr [OF qw]
  show ?case
  proof (cases "is_minus qw")
    case True
    with w have word: "word = CHR ''-'' # data qw" by simp
    have p: "set (plus_words ?q1) = set (plus_words q0)" using True by simp
    have m: "set (minus_words ?q1) = set (minus_words q0) \<union>
        {w. CHR ''-'' # w = word \<and> \<not> IsStopWord s w}"
      using True w word by (auto simp: set_set_insert)
    show ?thesis using ih unfolding p m using word by auto
  next
    case False
    with w have word: "word = data qw" "word = [] \<or> hd word \<noteq> CHR ''-''" by auto
    have p: "set (plus_words ?q1) = set (plus_words q0) \<union>
        {w. w = word \<and> \<not> IsStopWord s w}"
      using False w word by (auto simp: set_set_insert)
    have m: "set (minus_words ?q1) = set (minus_words q0)" using False by simp
    have no: "\<And>w. CHR ''-'' # w \<noteq> word" using word(2) by (cases word) auto
    show ?thesis using ih unfolding p m using word no by auto
  qed
qed

lemma parse_words_all_ok:
  "parse_words s ws q0 = Inr q \<Longrightarrow> w \<in> set ws \<Longrightarrow> \<exists>qw. ParseQueryWord s w = Inr qw"
  by (induction ws arbitrary: q0) (auto split: sum.splits)

lemma ParseQueryWord_minus_shape:
  "ParseQueryWord s (CHR ''-'' # w) = Inr qw \<Longrightarrow> w \<noteq> [] \<and> hd w \<noteq> CHR ''-''"
  by (auto simp: ParseQueryWord_def split: if_splits)

text \<open>
  Claim C7, as the code has it. The claim says the plus words and the minus words of a parsed
  query are disjoint. The code puts every word of the query into one of the two sets, by its
  first character alone: the plus words are the words (not stop words) that do not begin with
  a minus sign, the minus words are the words that follow a minus sign and are not stop words.
  Nothing compares the two sets: a word is in both exactly when the query holds it both
  bare and after a minus sign.
\<close>

theorem ParseQuery_classifies:
  assumes "ParseQuery s text = Inr query"
  shows "set (plus_words query) =
           {w \<in> set (SplitIntoWordsNoStop s text). hd w \<noteq> CHR ''-''} \<and>
         set (minus_words query) =
           {w. CHR ''-'' # w \<in> set (SplitIntoWordsNoStop s text) \<and> \<not> IsStopWord s w} \<and>
         set (plus_words query) \<inter> set (minus_words query) =
           {w. w \<in> set (SplitIntoWordsNoStop s text) \<and>
               CHR ''-'' # w \<in> set (SplitIntoWordsNoStop s text)}"
proof -
  have ns: "\<And>w. w \<in> set (SplitIntoWordsNoStop s text) \<Longrightarrow> \<not> IsStopWord s w"
    by (simp add: SplitIntoWordsNoStop_def)
  note sets = parse_words_sets [OF assms [unfolded ParseQuery_def], simplified]
  have p: "set (plus_words query) =
           {w \<in> set (SplitIntoWordsNoStop s text). hd w \<noteq> CHR ''-''}"
    using sets ns SplitIntoWordsNoStop_nonempty [of _ s "text"] by auto
  have m: "set (minus_words query) =
           {w. CHR ''-'' # w \<in> set (SplitIntoWordsNoStop s text) \<and> \<not> IsStopWord s w}"
    using sets by auto
  have ok: "\<And>w. CHR ''-'' # w \<in> set (SplitIntoWordsNoStop s text) \<Longrightarrow>
      w \<noteq> [] \<and> hd w \<noteq> CHR ''-''"
    using parse_words_all_ok [OF assms [unfolded ParseQuery_def]] ParseQueryWord_minus_shape
    by blast
  show ?thesis unfolding p m using ns ok by auto
qed

theorem ParseQuery_classifies_witness:
  "ParseQuery in_the_server ''cat -dog in -the'' =
      Inr \<lparr>plus_words = [''cat''], minus_words = [''dog'']\<rparr> \<and>
   set (plus_words \<lparr>plus_words = [''cat''], minus_words = [''dog'']\<rparr>) \<inter>
   set (minus_words \<lparr>plus_words = [''cat''], minus_words = [''dog'']\<rparr>) = {}"
proof -
  have a: "ParseQuery in_the_server ''cat -dog in -the'' =
      Inr \<lparr>plus_words = [''cat''], minus_words = [''dog'']\<rparr>"
    by (simp add: in_the_server_def server_eval)
  have c: "{w. w \<in> set (SplitIntoWordsNoStop in_the_server ''cat -dog in -the'') \<and>
               CHR ''-'' # w \<in> set (SplitIntoWordsNoStop in_the_server ''cat -dog in -the'')}
           = {}"
    by (auto simp: in_the_server_def server_eval)
  from ParseQuery_classifies [OF a, THEN conjunct2, THEN conjunct2] c
  have "set (plus_words \<lparr>plus_words = [''cat''], minus_words = [''dog'']\<rparr>) \<inter>
        set (minus_words \<lparr>plus_words = [''cat''], minus_words = [''dog'']\<rparr>) = {}"
    by (rule trans)
  with a show ?thesis by (rule conjI)
qed

text \<open>
  Claim C7 as stated fails: the query \<open>cat -cat\<close> parses, and \<open>cat\<close> is a plus word and a
  minus word.
\<close>

theorem ParseQuery_overlap_counterexample:
  "ParseQuery empty_server ''cat -cat'' =
      Inr \<lparr>plus_words = [''cat''], minus_words = [''cat'']\<rparr> \<and>
   ''cat'' \<in> set (plus_words \<lparr>plus_words = [''cat''], minus_words = [''cat'']\<rparr>) \<inter>
             set (minus_words \<lparr>plus_words = [''cat''], minus_words = [''cat'']\<rparr>)"
  by (simp add: server_eval)

section \<open>The number of results\<close>

text \<open>
  Claim C5. Whatever \<^verbatim>\<open>std::sort\<close> does, a result list of \<^verbatim>\<open>FindTopDocuments\<close> has at
  most \<^verbatim>\<open>MAX_RESULT_DOCUMENT_COUNT\<close> = 5 elements.
\<close>

theorem FindTopDocuments_at_most_five:
  "FindTopDocuments std_sort s raw_query pred = Inr docs \<Longrightarrow>
     length docs \<le> MAX_RESULT_DOCUMENT_COUNT \<and> MAX_RESULT_DOCUMENT_COUNT = 5"
  by (auto simp: FindTopDocuments_def Let_def MAX_RESULT_DOCUMENT_COUNT_def
      split: sum.splits if_splits)

theorem FindTopDocuments_at_most_five_witness:
  "(\<exists>found. FindAllDocuments six_cats \<lparr>plus_words = [''cat''], minus_words = []\<rparr> = Inr found
      \<and> length found = 6) \<and>
   (\<exists>docs. FindTopDocuments insertion_sort six_cats ''cat'' (\<lambda>i st r. True) = Inr docs
      \<and> map doc_id docs = [5, 4, 3, 2, 1] \<and> length docs \<le> MAX_RESULT_DOCUMENT_COUNT)"
proof -
  have a: "FindTopDocuments insertion_sort six_cats ''cat'' (\<lambda>i st r. True) =
      Inr [\<lparr>doc_id = 5, relevance = Fin 0, status = ACTUAL, rating = 5\<rparr>,
           \<lparr>doc_id = 4, relevance = Fin 0, status = ACTUAL, rating = 4\<rparr>,
           \<lparr>doc_id = 3, relevance = Fin 0, status = ACTUAL, rating = 3\<rparr>,
           \<lparr>doc_id = 2, relevance = Fin 0, status = ACTUAL, rating = 2\<rparr>,
           \<lparr>doc_id = 1, relevance = Fin 0, status = ACTUAL, rating = 1\<rparr>]"
    by (simp add: six_cats_def server_eval)
  have b: "\<exists>found. FindAllDocuments six_cats \<lparr>plus_words = [''cat''], minus_words = []\<rparr>
      = Inr found \<and> length found = 6"
    by (simp add: six_cats_def server_eval)
  show ?thesis using a b FindTopDocuments_at_most_five [OF a] by simp
qed

section \<open>The invariant of the index\<close>

lemma values_map_set: "snd ` set (map_set k v m) \<subseteq> insert v (snd ` set m)"
  by (induction m) (force split: if_splits)+

lemma map_set_not_Nil: "map_set k v m \<noteq> []"
  by (cases m) (auto split: if_splits)

lemma wf_postings_map_set:
  assumes "ps = [] \<or> wf_postings D ps" and "d \<in> D" and "0 < y"
  shows "wf_postings D (map_set d (Fin y) ps)"
proof -
  have srt: "sorted_wrt (<) (map fst ps)" and keys: "fst ` set ps \<subseteq> D"
    and vals: "\<forall>v \<in> snd ` set ps. \<exists>x. v = Fin x \<and> 0 < x"
    using assms(1) by (auto simp: wf_postings_def)
  have "\<forall>v \<in> snd ` set (map_set d (Fin y) ps). \<exists>x. v = Fin x \<and> 0 < x"
    using values_map_set [of d "Fin y" ps] vals assms(3) by blast
  then show ?thesis
    using sorted_map_set [OF srt] keys assms(2)
    by (simp add: wf_postings_def map_set_not_Nil keys_map_set)
qed

lemma map_of_add_step:
  "map_of (add_step word d step t) =
     (map_of t)(word \<mapsto>
        map_set d
          (dadd (case map_of (case map_of t word of None \<Rightarrow> [] | Some m \<Rightarrow> m) d of
                   None \<Rightarrow> Fin 0 | Some v \<Rightarrow> v) step)
          (case map_of t word of None \<Rightarrow> [] | Some m \<Rightarrow> m))"
  by (simp add: add_step_def Let_def map_of_map_set)

lemma wf_postings_value:
  "wf_postings D ps \<Longrightarrow> map_of ps d = Some v \<Longrightarrow> \<exists>x. v = Fin x \<and> 0 < x"
  by (force simp: wf_postings_def dest: map_of_SomeD)

lemma wf_add_step:
  assumes wf: "\<forall>w ps. map_of t w = Some ps \<longrightarrow> wf_postings D ps"
    and d: "d \<in> D" and x: "0 < x"
  shows "\<forall>w ps. map_of (add_step word d (Fin x) t) w = Some ps \<longrightarrow> wf_postings D ps"
proof (intro allI impI)
  fix w ps
  assume a: "map_of (add_step word d (Fin x) t) w = Some ps"
  let ?postings = "case map_of t word of None \<Rightarrow> [] | Some m \<Rightarrow> m"
  let ?old = "case map_of ?postings d of None \<Rightarrow> Fin 0 | Some v \<Rightarrow> v"
  show "wf_postings D ps"
  proof (cases "w = word")
    case False
    with a wf show ?thesis by (simp add: map_of_add_step)
  next
    case True
    with a have ps: "ps = map_set d (dadd ?old (Fin x)) ?postings"
      by (simp add: map_of_add_step)
    have p: "?postings = [] \<or> wf_postings D ?postings"
      using wf by (cases "map_of t word") auto
    have "\<exists>y. ?old = Fin y \<and> 0 \<le> y"
    proof (cases "map_of ?postings d")
      case None
      then show ?thesis by simp
    next
      case (Some v)
      then have "?postings \<noteq> []" by auto
      with p have "wf_postings D ?postings" by simp
      from wf_postings_value [OF this Some] Some show ?thesis by auto
    qed
    then obtain y where y: "?old = Fin y" "0 \<le> y" by blast
    have "ps = map_set d (Fin (y + x)) ?postings" unfolding ps y(1) by simp
    moreover have "0 < y + x" using y(2) x by simp
    ultimately show ?thesis using wf_postings_map_set [OF p d] by simp
  qed
qed

lemma wf_add_words:
  assumes "\<forall>w ps. map_of t w = Some ps \<longrightarrow> wf_postings D ps" and "d \<in> D" and "0 < x"
  shows "\<forall>w ps. map_of (add_words ws d (Fin x) t) w = Some ps \<longrightarrow> wf_postings D ps"
  using assms(1)
proof (induction ws arbitrary: t)
  case Nil
  then show ?case by simp
next
  case (Cons word ws)
  from wf_add_step [OF Cons.prems assms(2,3)]
  have "\<forall>w ps. map_of (add_step word d (Fin x) t) w = Some ps \<longrightarrow> wf_postings D ps" .
  from Cons.IH [OF this] show ?case by simp
qed

lemma keys_add_words:
  "map_of (add_words ws d step t) w = None \<longleftrightarrow> map_of t w = None \<and> w \<notin> set ws"
  by (induction ws arbitrary: t) (auto simp: map_of_add_step)

lemma wf_postings_mono: "wf_postings D ps \<Longrightarrow> D \<subseteq> D' \<Longrightarrow> wf_postings D' ps"
  by (auto simp: wf_postings_def)

lemma tf_step_Fin: "words \<noteq> [] \<Longrightarrow> tf_step words = Fin (1 / real (length words))"
  by (simp add: tf_step_def of_size_def)

lemma AddDocument_Inr:
  assumes "AddDocument s d text st rs = (Inr (), s')"
  shows "map_of (document_id_to_rating_and_rating s) d = None"
    and "document_id_to_rating_and_rating s' = map_set d (ComputeAverageRating rs, st) (document_id_to_rating_and_rating s)"
    and "tf s' = add_words (SplitIntoWordsNoStop s text) d
                   (tf_step (SplitIntoWordsNoStop s text)) (tf s)"
    and "document_id_orders s' = document_id_orders s @ [d]"
    and "stop_words s' = stop_words s"
  using assms by (auto simp: AddDocument_def Let_def simp del: not_None_eq split: if_splits)

lemma AddDocument_Inl: "AddDocument s d text st rs = (Inl e, s') \<Longrightarrow> s' = s"
  by (auto simp: AddDocument_def Let_def split: if_splits)

lemma wf_index_AddDocument:
  assumes wf: "wf_index s" and add: "AddDocument s d text st rs = (r, s')"
  shows "wf_index s'"
proof (cases r)
  case (Inl e)
  with add wf show ?thesis by (auto dest: AddDocument_Inl)
next
  case (Inr u)
  with add have add': "AddDocument s d text st rs = (Inr (), s')" by simp
  note f = AddDocument_Inr [OF add']
  let ?words = "SplitIntoWordsNoStop s text"
  let ?D = "fst ` set (document_id_to_rating_and_rating s)" and ?D' = "fst ` set (document_id_to_rating_and_rating s')"
  have D': "?D' = insert d ?D" by (simp add: f(2) keys_map_set)
  have new: "d \<notin> ?D" using f(1) by (simp add: map_of_eq_None_iff)
  have sub: "?D \<subseteq> ?D'" using D' by auto
  have old: "\<forall>w ps. map_of (tf s) w = Some ps \<longrightarrow> wf_postings ?D' ps"
    using wf wf_postings_mono [OF _ sub] by (auto simp: wf_index_def)
  have posts: "\<forall>w ps. map_of (tf s') w = Some ps \<longrightarrow> wf_postings ?D' ps"
  proof (cases "?words = []")
    case True
    then show ?thesis using old by (simp add: f(3))
  next
    case False
    have "0 < 1 / real (length ?words)" using False by simp
    from wf_add_words [OF old _ this, of d ?words] D' show ?thesis
      by (simp add: f(3) tf_step_Fin [OF False])
  qed
  have stop: "\<forall>w \<in> set (stop_words s'). map_of (tf s') w = None"
    using wf by (auto simp: wf_index_def f(3,5) keys_add_words SplitIntoWordsNoStop_def
        IsStopWord_def)
  have ord: "distinct (document_id_orders s')"
    "set (document_id_orders s') = ?D'"
    using wf new D' by (auto simp: wf_index_def f(4))
  show ?thesis using posts stop ord by (simp add: wf_index_def)
qed

lemma wf_index_reachable: "reachable s \<Longrightarrow> wf_index s"
proof (induction rule: reachable.induct)
  case default
  then show ?case by (simp add: wf_index_def empty_server_def)
next
  case (container words s)
  then show ?case
    by (auto simp: wf_index_def empty_server_def SearchServer_of_container_def Let_def
        split: if_splits)
next
  case (add s d body st rs r s')
  then show ?case by (blast intro: wf_index_AddDocument)
qed

section \<open>Stop words\<close>

lemma ParseQuery_no_stop_words:
  assumes "ParseQuery s raw_query = Inr query"
  shows "set (stop_words s) \<inter> (set (plus_words query) \<union> set (minus_words query)) = {}"
proof -
  note sets = parse_words_sets [OF assms [unfolded ParseQuery_def], simplified]
  show ?thesis using sets by (auto simp: IsStopWord_def)
qed

text \<open>
  Claim C8. In every reachable state no stop word is a key of the inverted index, and no stop
  word is a plus word or a minus word of a query that parses.
\<close>

theorem stop_words_excluded:
  assumes "reachable s"
  shows "(\<forall>w \<in> set (stop_words s). w \<notin> fst ` set (tf s)) \<and>
         (\<forall>raw_query query. ParseQuery s raw_query = Inr query \<longrightarrow>
            set (stop_words s) \<inter> (set (plus_words query) \<union> set (minus_words query)) = {})"
  using wf_index_reachable [OF assms] ParseQuery_no_stop_words
  by (simp add: wf_index_def map_of_eq_None_iff)

theorem stop_words_excluded_witness:
  "reachable cat_server \<and> stop_words cat_server = [''in'', ''the''] \<and>
   map fst (tf cat_server) = [''cat'', ''city''] \<and>
   ParseQuery cat_server ''in cat -the -city'' =
     Inr \<lparr>plus_words = [''cat''], minus_words = [''city'']\<rparr> \<and>
   set (stop_words cat_server) \<inter> (set [''cat''] \<union> set [''city'']) = {}"
proof -
  have a: "ParseQuery cat_server ''in cat -the -city'' =
     Inr \<lparr>plus_words = [''cat''], minus_words = [''city'']\<rparr>"
    by (simp add: cat_server_def in_the_server_def server_eval)
  have b: "stop_words cat_server = [''in'', ''the'']" "map fst (tf cat_server) = [''cat'', ''city'']"
    by (simp_all add: cat_server_def in_the_server_def server_eval)
  from stop_words_excluded [OF reachable_cat_server] a
  have "set (stop_words cat_server) \<inter>
      (set (plus_words \<lparr>plus_words = [''cat''], minus_words = [''city'']\<rparr>) \<union>
       set (minus_words \<lparr>plus_words = [''cat''], minus_words = [''city'']\<rparr>)) = {}"
    by blast
  then show ?thesis using a b reachable_cat_server by simp
qed

section \<open>Relevance\<close>




lemma containing_Some: "map_of (tf s) w = Some ps \<Longrightarrow> spec_containing s w = fst ` set ps"
  by (simp add: spec_containing_def spec_postings_def)

lemma containing_None: "map_of (tf s) w = None \<Longrightarrow> spec_containing s w = {}"
  by (simp add: spec_containing_def spec_postings_def)


















section \<open>Matching one document\<close>

text \<open>
  What \<^verbatim>\<open>MatchDocument\<close> does when every minus word of the query is a key of the inverted
  index: an invalid query fails as in \<^verbatim>\<open>ParseQuery\<close>, an unknown id throws
  \<^verbatim>\<open>out_of_range\<close>, and a known document gives its status with no word when a minus word has
  it in its postings, and with the plus words that have it in their postings otherwise.
\<close>

lemma minus_hit_indexed:
  "\<forall>w \<in> set ws. map_of (tf s) w \<noteq> None \<Longrightarrow>
     minus_hit s d ws = Inr (\<exists>w \<in> set ws. d \<in> spec_containing s w)"
proof (induction ws)
  case Nil
  then show ?case by simp
next
  case (Cons w ws)
  from Cons.prems obtain ps where ps: "map_of (tf s) w = Some ps" by auto
  from Cons.prems have "\<forall>w \<in> set ws. map_of (tf s) w \<noteq> None" by simp
  note ih = Cons.IH [OF this]
  have "d \<in> spec_containing s w \<longleftrightarrow> map_of ps d \<noteq> None"
    by (simp add: containing_Some [OF ps] map_of_eq_None_iff)
  then show ?case using ps ih by auto
qed

lemma plus_hits_set:
  "set (plus_hits s d ws acc) = set acc \<union> {w \<in> set ws. d \<in> spec_containing s w}"
proof (induction ws arbitrary: acc)
  case Nil
  then show ?case by simp
next
  case (Cons w ws)
  show ?case
  proof (cases "map_of (tf s) w")
    case None
    then show ?thesis using Cons.IH containing_None [OF None] by auto
  next
    case (Some ps)
    have "d \<in> spec_containing s w \<longleftrightarrow> map_of ps d \<noteq> None"
      by (simp add: containing_Some [OF Some] map_of_eq_None_iff)
    then show ?thesis using Some Cons.IH by (auto simp: set_set_insert)
  qed
qed

lemma MatchDocument_indexed:
  assumes "ParseQuery s raw_query = Inr query"
    and "map_of (document_id_to_rating_and_rating s) document_id = Some (doc_rating, doc_status)"
    and "\<forall>w \<in> set (minus_words query). map_of (tf s) w \<noteq> None"
  shows "\<exists>matched. MatchDocument s raw_query document_id = Inr (matched, doc_status) \<and>
           set matched =
             (if \<exists>w \<in> set (minus_words query). document_id \<in> spec_containing s w then {}
              else {w \<in> set (plus_words query). document_id \<in> spec_containing s w})"
  using assms(1,2) minus_hit_indexed [OF assms(3), of document_id]
  by (auto simp: MatchDocument_def plus_hits_set)

lemma MatchDocument_unknown:
  assumes "ParseQuery s raw_query = Inr query"
    and "map_of (document_id_to_rating_and_rating s) document_id = None"
  shows "MatchDocument s raw_query document_id = Inl out_of_range"
  using assms by (simp add: MatchDocument_def)

lemma MatchDocument_invalid_query:
  "ParseQuery s raw_query = Inl e \<Longrightarrow> MatchDocument s raw_query document_id = Inl e"
  by (simp add: MatchDocument_def)

lemma minus_hit_absent:
  assumes "\<exists>w \<in> set ws. map_of (tf s) w = None"
    and "\<forall>w \<in> set ws. \<forall>ps. map_of (tf s) w = Some ps \<longrightarrow> map_of ps document_id = None"
  shows "minus_hit s document_id ws = Inl out_of_range"
  using assms by (induction ws) (auto split: option.splits)

text \<open>
  Claim C3 fails on the code. For a document that was added, the claim promises the matched
  plus words whenever no minus word has the document in its postings. The loop over the minus
  words looks every minus word up with \<^verbatim>\<open>tf_.at(word)\<close>: when no minus word has the document
  in its postings and one of them is not a key of the inverted index at all,
  \<^verbatim>\<open>MatchDocument\<close> throws \<^verbatim>\<open>out_of_range\<close>.
\<close>

theorem MatchDocument_unindexed_minus_word:
  assumes "ParseQuery s raw_query = Inr query"
    and "map_of (document_id_to_rating_and_rating s) document_id = Some (doc_rating, doc_status)"
    and "\<exists>w \<in> set (minus_words query). map_of (tf s) w = None"
    and "\<forall>w \<in> set (minus_words query). \<forall>ps. map_of (tf s) w = Some ps
           \<longrightarrow> map_of ps document_id = None"
  shows "MatchDocument s raw_query document_id = Inl out_of_range"
  using assms(1,2) minus_hit_absent [OF assms(3,4)] by (simp add: MatchDocument_def)

theorem MatchDocument_unindexed_minus_word_witness:
  "ParseQuery cat_server ''cat -dog'' = Inr \<lparr>plus_words = [''cat''], minus_words = [''dog'']\<rparr> \<and>
   map_of (document_id_to_rating_and_rating cat_server) 0 = Some (1, ACTUAL) \<and>
   map_of (tf cat_server) ''dog'' = None \<and>
   MatchDocument cat_server ''cat -dog'' 0 = Inl out_of_range \<and>
   MatchDocument cat_server ''cat'' 0 = Inr ([''cat''], ACTUAL)"
proof -
  have a: "ParseQuery cat_server ''cat -dog'' =
      Inr \<lparr>plus_words = [''cat''], minus_words = [''dog'']\<rparr>"
    by (simp add: cat_server_def in_the_server_def server_eval)
  have b: "map_of (document_id_to_rating_and_rating cat_server) 0 = Some (1, ACTUAL)"
    by (simp add: cat_server_def in_the_server_def server_eval)
  have c: "map_of (tf cat_server) ''dog'' = None"
    by (simp add: cat_server_def in_the_server_def server_eval)
  have d: "MatchDocument cat_server ''cat'' 0 = Inr ([''cat''], ACTUAL)"
    by (simp add: cat_server_def in_the_server_def server_eval)
  have "MatchDocument cat_server ''cat -dog'' 0 = Inl out_of_range"
    by (rule MatchDocument_unindexed_minus_word [OF a b]) (simp_all add: c)
  then show ?thesis using a b c d by simp
qed

section \<open>Ranking\<close>

text \<open>
  When the list \<^verbatim>\<open>std::sort\<close> returns is sorted by the comparator (no element compares
  before an earlier one) and the relevances are finite, the result list is in ranking order:
  filtering and cutting keep a sorted list sorted.
\<close>

lemma ranking_order_sorted_wrt:
  "sorted_wrt spec_ranked_before docs \<Longrightarrow> spec_ranking_order docs"
  by (induction docs rule: spec_ranking_order.induct) simp_all

lemma not_after_ranked_before:
  assumes "\<not> by_relevance b a" and "relevance a = Fin x" and "relevance b = Fin y"
  shows "spec_ranked_before a b"
  using assms by (auto simp: by_relevance_def spec_ranked_before_def dsub_def EPSILON_def)

lemma ranking_order_when_sorted:
  assumes "ParseQuery s raw_query = Inr query"
    and "FindAllDocuments s query = Inr found"
    and "sorted_wrt (\<lambda>a b. \<not> by_relevance b a) (std_sort by_relevance found)"
    and "\<forall>doc \<in> set (std_sort by_relevance found). \<exists>x. relevance doc = Fin x"
    and "FindTopDocuments std_sort s raw_query pred = Inr docs"
  shows "spec_ranking_order docs"
proof -
  let ?sorted = "std_sort by_relevance found"
  let ?kept = "filter (\<lambda>lhs. pred (doc_id lhs) (status lhs) (rating lhs)) ?sorted"
  have docs: "docs = (if MAX_RESULT_DOCUMENT_COUNT < length ?kept
                      then take MAX_RESULT_DOCUMENT_COUNT ?kept else ?kept)"
    using assms(1,2,5) by (simp add: FindTopDocuments_def Let_def)
  have "sorted_wrt spec_ranked_before ?sorted"
    using assms(3)
    by (rule sorted_wrt_mono_rel [rotated]) (use assms(4) not_after_ranked_before in blast)
  then have "sorted_wrt spec_ranked_before ?kept" by (rule sorted_wrt_filter)
  then have "sorted_wrt spec_ranked_before docs"
    unfolding docs by (simp add: sorted_wrt_take)
  then show ?thesis by (rule ranking_order_sorted_wrt)
qed

text \<open>
  The comparator is not a strict weak ordering, which \<^verbatim>\<open>std::sort\<close> requires: two relevances
  less than \<^verbatim>\<open>EPSILON\<close> apart compare by rating one way and by relevance the other way.
  The state \<open>ranking_server\<close> shows it on a query for \<open>x\<close>.
\<close>

lemma split_words_ys:
  "word \<noteq> [] \<Longrightarrow> split_words (concat (replicate n '' y'')) word = word # replicate n ''y''"
  by (induction n arbitrary: word) (simp_all add: isspace_def)

lemma SplitIntoWords_long_text: "SplitIntoWords (long_text n) = ''x'' # replicate n ''y''"
  by (simp add: SplitIntoWords_def long_text_def isspace_def split_words_ys)

lemma IsInvalid_long_text: "\<not> IsInvalid (long_text n)"
  by (induction n) (simp_all add: IsInvalid_def long_text_def char_value_def)

lemma map_of_add_words_other:
  "w \<notin> set ws \<Longrightarrow> map_of (add_words ws d step t) w = map_of t w"
  by (induction ws arbitrary: t) (simp_all add: map_of_add_step)

lemma AddDocument_view:
  assumes "stop_words s = []" and "0 \<le> d"
    and "map_of (document_id_to_rating_and_rating s) d = None"
    and "\<not> IsInvalid body" and "SplitIntoWords body = ws"
  shows "fst (AddDocument s d body st rs) = Inr ()"
    and "stop_words (snd (AddDocument s d body st rs)) = []"
    and "document_id_to_rating_and_rating (snd (AddDocument s d body st rs)) =
           map_set d (ComputeAverageRating rs, st) (document_id_to_rating_and_rating s)"
    and "document_id_orders (snd (AddDocument s d body st rs)) = document_id_orders s @ [d]"
    and "tf (snd (AddDocument s d body st rs)) = add_words ws d (tf_step ws) (tf s)"
  using assms
  by (simp_all add: AddDocument_def Let_def SplitIntoWordsNoStop_def IsStopWord_def)

lemma tf_step_long_text: "tf_step (''x'' # replicate n ''y'') = Fin (1 / (real n + 1))"
  by (simp add: tf_step_def of_size_def add.commute)

lemma ranking_server_view:
  "stop_words ranking_server = []"
  "document_id_to_rating_and_rating ranking_server =
     [(0, 2, ACTUAL), (1, 0, BANNED), (2, 1, ACTUAL), (3, 1, ACTUAL)]"
  "document_id_orders ranking_server = [0, 1, 2, 3]"
  "map_of (tf ranking_server) ''x'' =
     Some [(0, Fin (1 / 1000)), (1, Fin (1 / 999)), (2, Fin (1 / 1000))]"
proof -
  define s1 where "s1 = snd (AddDocument empty_server 0 (long_text 999) ACTUAL [2])"
  define s2 where "s2 = snd (AddDocument s1 1 (long_text 998) BANNED [0])"
  define s3 where "s3 = snd (AddDocument s2 2 (long_text 999) ACTUAL [1])"
  have s4: "ranking_server = snd (AddDocument s3 3 ''z'' ACTUAL [1])"
    by (simp add: ranking_server_def s1_def s2_def s3_def)
  have rate: "ComputeAverageRating [2] = 2" "ComputeAverageRating [0] = 0"
    "ComputeAverageRating [1] = 1"
    by (simp_all add: ComputeAverageRating_def wrap32_def int_div_def)
  note v1 = AddDocument_view [where s = empty_server and d = 0 and body = "long_text 999"
      and st = ACTUAL and rs = "[2]", OF _ _ _ IsInvalid_long_text SplitIntoWords_long_text,
      folded s1_def]
  have s1: "stop_words s1 = []" "document_id_to_rating_and_rating s1 = [(0, 2, ACTUAL)]"
    "document_id_orders s1 = [0]" "map_of (tf s1) ''x'' = Some [(0, Fin (1 / 1000))]"
    using v1
    by (simp_all add: empty_server_def rate map_of_add_words_other map_of_add_step
        tf_step_long_text)
  note v2 = AddDocument_view [where s = s1 and d = 1 and body = "long_text 998"
      and st = BANNED and rs = "[0]", OF _ _ _ IsInvalid_long_text SplitIntoWords_long_text,
      folded s2_def]
  have s2: "stop_words s2 = []"
    "document_id_to_rating_and_rating s2 = [(0, 2, ACTUAL), (1, 0, BANNED)]"
    "document_id_orders s2 = [0, 1]"
    "map_of (tf s2) ''x'' = Some [(0, Fin (1 / 1000)), (1, Fin (1 / 999))]"
    using v2 by (simp_all add: s1 rate map_of_add_words_other map_of_add_step tf_step_long_text)
  note v3 = AddDocument_view [where s = s2 and d = 2 and body = "long_text 999"
      and st = ACTUAL and rs = "[1]", OF _ _ _ IsInvalid_long_text SplitIntoWords_long_text,
      folded s3_def]
  have s3: "stop_words s3 = []"
    "document_id_to_rating_and_rating s3 = [(0, 2, ACTUAL), (1, 0, BANNED), (2, 1, ACTUAL)]"
    "document_id_orders s3 = [0, 1, 2]"
    "map_of (tf s3) ''x'' = Some [(0, Fin (1 / 1000)), (1, Fin (1 / 999)), (2, Fin (1 / 1000))]"
    using v3 by (simp_all add: s2 rate map_of_add_words_other map_of_add_step tf_step_long_text)
  have z: "\<not> IsInvalid ''z''" "SplitIntoWords ''z'' = [''z'']"
    by (simp_all add: IsInvalid_def char_value_def SplitIntoWords_def isspace_def)
  note v4 = AddDocument_view [where s = s3 and d = 3 and body = "''z''"
      and st = ACTUAL and rs = "[1]", OF _ _ _ z, folded s4]
  show "stop_words ranking_server = []"
    "document_id_to_rating_and_rating ranking_server =
     [(0, 2, ACTUAL), (1, 0, BANNED), (2, 1, ACTUAL), (3, 1, ACTUAL)]"
    "document_id_orders ranking_server = [0, 1, 2, 3]"
    "map_of (tf ranking_server) ''x'' =
     Some [(0, Fin (1 / 1000)), (1, Fin (1 / 999)), (2, Fin (1 / 1000))]"
    using v4 by (simp_all add: s3 rate map_of_add_step)
qed

lemma ranking_query:
  "ParseQuery ranking_server ''x'' = Inr \<lparr>plus_words = [''x''], minus_words = []\<rparr>"
  by (simp add: ParseQuery_def SplitIntoWordsNoStop_def IsStopWord_def ranking_server_view
      SplitIntoWords_def isspace_def ParseQueryWord_def IsInvalid_def char_value_def)

lemma ranking_found:
  "FindAllDocuments ranking_server \<lparr>plus_words = [''x''], minus_words = []\<rparr> =
     Inr [\<lparr>doc_id = 0, relevance = Fin (ln (4 / 3) / 1000), status = ACTUAL, rating = 2\<rparr>,
          \<lparr>doc_id = 1, relevance = Fin (ln (4 / 3) / 999), status = BANNED, rating = 0\<rparr>,
          \<lparr>doc_id = 2, relevance = Fin (ln (4 / 3) / 1000), status = ACTUAL, rating = 1\<rparr>]"
  by (simp add: FindAllDocuments_def ranking_server_view CalculateIDF_def of_size_def)

lemma ln_four_thirds: "0 < ln (4 / 3 :: real)" "ln (4 / 3 :: real) \<le> 1 / 3"
proof -
  show "0 < ln (4 / 3 :: real)" by simp
  have "ln (4 / 3 :: real) \<le> 4 / 3 - 1" by (rule ln_le_minus_one) simp
  then show "ln (4 / 3 :: real) \<le> 1 / 3" by simp
qed

text \<open>
  Document 1 compares before document 0, document 2 before document 1, and document 1 before
  document 2 as well.
\<close>

lemma ranking_compare:
  "by_relevance
     \<lparr>doc_id = 1, relevance = Fin (ln (4 / 3) / 999), status = BANNED, rating = 0\<rparr>
     \<lparr>doc_id = 0, relevance = Fin (ln (4 / 3) / 1000), status = ACTUAL, rating = 2\<rparr>"
  "by_relevance
     \<lparr>doc_id = 2, relevance = Fin (ln (4 / 3) / 1000), status = ACTUAL, rating = 1\<rparr>
     \<lparr>doc_id = 1, relevance = Fin (ln (4 / 3) / 999), status = BANNED, rating = 0\<rparr>"
  "by_relevance
     \<lparr>doc_id = 1, relevance = Fin (ln (4 / 3) / 999), status = BANNED, rating = 0\<rparr>
     \<lparr>doc_id = 2, relevance = Fin (ln (4 / 3) / 1000), status = ACTUAL, rating = 1\<rparr>"
  using ln_four_thirds by (simp_all add: by_relevance_def dsub_def EPSILON_def)

text \<open>
  So the comparator is not asymmetric on the documents this query matches: the call of
  \<^verbatim>\<open>std::sort\<close> is outside what the library specifies.
\<close>

lemma by_relevance_not_asymmetric:
  "\<exists>found a b. FindAllDocuments ranking_server \<lparr>plus_words = [''x''], minus_words = []\<rparr>
       = Inr found \<and>
     a \<in> set found \<and> b \<in> set found \<and> by_relevance a b \<and> by_relevance b a"
  using ranking_found ranking_compare(2,3) by fastforce

lemma reachable_ranking_server: "reachable ranking_server"
  unfolding ranking_server_def by (intro reachable_snd_AddDocument reachable.default)

text \<open>
  Claim C4 fails on the code. In the reachable state \<open>ranking_server\<close> the query \<open>x\<close> matches
  the documents 0, 1 and 2, in this order. The insertion sort of \<^verbatim>\<open>std::sort\<close> moves document
  1 before document 0 (greater relevance), then document 2 to the front (it compares before
  the first element, document 1: relevance within \<^verbatim>\<open>EPSILON\<close>, greater rating). Document 1
  is \<^verbatim>\<open>BANNED\<close> and is filtered out after the sort. The result is document 2 (rating 1)
  before document 0 (rating 2), two documents of the same relevance: not in ranking order.
\<close>

theorem ranking_order_violated:
  "reachable ranking_server \<and>
   FindTopDocuments_status insertion_sort ranking_server ''x'' ACTUAL =
     Inr [\<lparr>doc_id = 2, relevance = Fin (ln (4 / 3) / 1000), status = ACTUAL, rating = 1\<rparr>,
          \<lparr>doc_id = 0, relevance = Fin (ln (4 / 3) / 1000), status = ACTUAL, rating = 2\<rparr>] \<and>
   \<not> spec_ranking_order
     [\<lparr>doc_id = 2, relevance = Fin (ln (4 / 3) / 1000), status = ACTUAL, rating = 1\<rparr>,
      \<lparr>doc_id = 0, relevance = Fin (ln (4 / 3) / 1000), status = ACTUAL, rating = 2\<rparr>]"
proof -
  have "insertion_sort by_relevance
     [\<lparr>doc_id = 0, relevance = Fin (ln (4 / 3) / 1000), status = ACTUAL, rating = 2\<rparr>,
      \<lparr>doc_id = 1, relevance = Fin (ln (4 / 3) / 999), status = BANNED, rating = 0\<rparr>,
      \<lparr>doc_id = 2, relevance = Fin (ln (4 / 3) / 1000), status = ACTUAL, rating = 1\<rparr>] =
     [\<lparr>doc_id = 2, relevance = Fin (ln (4 / 3) / 1000), status = ACTUAL, rating = 1\<rparr>,
      \<lparr>doc_id = 1, relevance = Fin (ln (4 / 3) / 999), status = BANNED, rating = 0\<rparr>,
      \<lparr>doc_id = 0, relevance = Fin (ln (4 / 3) / 1000), status = ACTUAL, rating = 2\<rparr>]"
    by (simp add: insertion_sort_def ranking_compare)
  then have "FindTopDocuments_status insertion_sort ranking_server ''x'' ACTUAL =
     Inr [\<lparr>doc_id = 2, relevance = Fin (ln (4 / 3) / 1000), status = ACTUAL, rating = 1\<rparr>,
          \<lparr>doc_id = 0, relevance = Fin (ln (4 / 3) / 1000), status = ACTUAL, rating = 2\<rparr>]"
    by (simp add: FindTopDocuments_status_def FindTopDocuments_def ranking_query ranking_found
        MAX_RESULT_DOCUMENT_COUNT_def)
  moreover have "\<not> spec_ranking_order
     [\<lparr>doc_id = 2, relevance = Fin (ln (4 / 3) / 1000), status = ACTUAL, rating = 1\<rparr>,
      \<lparr>doc_id = 0, relevance = Fin (ln (4 / 3) / 1000), status = ACTUAL, rating = 2\<rparr>]"
    by (simp add: spec_ranked_before_def)
  ultimately show ?thesis using reachable_ranking_server by (intro conjI)
qed

end
